theory Spec2Isabelle
  imports Main "HOL-Library.Multiset"
begin

section \<open>Data model of \<^verbatim>\<open>main.py\<close>\<close>

text \<open>
  A Python \<^verbatim>\<open>str\<close> is a sequence of Unicode code points, so a title is a list of
  code points. Messages of the database driver are plain ASCII text.
\<close>

type_synonym str = "nat list"

text \<open>
  A row of the table \<^verbatim>\<open>todos (id SERIAL PRIMARY KEY, title TEXT NOT NULL,
  done BOOLEAN NOT NULL DEFAULT FALSE)\<close>: identifier, title, done.
\<close>

type_synonym row = "int \<times> str \<times> bool"

definition row_id :: "row \<Rightarrow> int" where
  "row_id r = fst r"

text \<open>\<^verbatim>\<open>class TodoIn(BaseModel): title: str\<close>\<close>

datatype TodoIn = TodoIn str

fun title_in :: "TodoIn \<Rightarrow> str" where
  "title_in (TodoIn t) = t"

text \<open>\<^verbatim>\<open>class TodoOut(BaseModel): id: int; title: str; done: bool\<close>\<close>

record TodoOut =
  todo_id :: int
  title :: str
  todo_done :: bool

text \<open>The explicit mapping \<^verbatim>\<open>TodoOut(id=r["id"], title=r["title"], done=r["done"])\<close>.\<close>

fun todo_out :: "row \<Rightarrow> TodoOut" where
  "todo_out (i, t, d) = \<lparr>todo_id = i, title = t, todo_done = d\<rparr>"

text \<open>
  The three \<^verbatim>\<open>detail\<close> messages of the handlers:
  \<^verbatim>\<open>titulo e obrigatorio\<close> (400), \<^verbatim>\<open>falha ao inserir registro\<close> (500) and
  \<^verbatim>\<open>nao encontrado\<close> (404).
\<close>

datatype detail = Titulo_obrigatorio | Falha_inserir | Nao_encontrado

text \<open>
  What a handler can raise: an \<^verbatim>\<open>HTTPException\<close> with its status code, an error of
  the driver (\<^verbatim>\<open>psycopg2.Error\<close>) that no handler but \<^verbatim>\<open>health\<close> catches, or the
  \<^verbatim>\<open>ValueError\<close> (\<^verbatim>\<open>UnicodeEncodeError\<close> is one) with which the driver refuses a
  parameter that it cannot send, which no handler catches.
\<close>

datatype error = HTTPException nat detail | Psycopg2Error string | ValueError string

text \<open>
  The status line of a response: the \<^verbatim>\<open>status_code\<close> of the route decorator when the
  handler returns, the code of the \<^verbatim>\<open>HTTPException\<close> when it raises one, and 500 for
  an exception that leaves the handler uncaught.
\<close>

fun http_status :: "nat \<Rightarrow> error + 'a \<Rightarrow> nat" where
  "http_status ok (Inr _) = ok"
| "http_status ok (Inl (HTTPException code _)) = code"
| "http_status ok (Inl (Psycopg2Error _)) = 500"
| "http_status ok (Inl (ValueError _)) = 500"

section \<open>The database and its connections\<close>

text \<open>
  What can happen to a connection: \<^verbatim>\<open>psycopg2.connect\<close> returned a new connection, or
  raised; the \<^verbatim>\<open>with\<close> block of the connection was left normally (the transaction is
  committed) or by an exception (it is rolled back), which in this driver ends the
  transaction and keeps the connection open; \<^verbatim>\<open>close()\<close> was called on the connection.
  No line of \<^verbatim>\<open>main.py\<close> calls \<^verbatim>\<open>close()\<close>, so no function below adds \<open>Closed\<close>.
\<close>

datatype event = Connected | Connect_failed | Exit_commit | Exit_rollback | Closed

text \<open>
  The world a request runs in: whether the server can be reached (\<open>Some msg\<close> is the
  message of the error that \<^verbatim>\<open>psycopg2.connect\<close> raises), the relation \<^verbatim>\<open>todos\<close>
  (\<open>None\<close> when the database has no such relation, which is how a start-up that failed
  leaves it; otherwise its committed rows in storage order), the next value of the
  sequence behind \<^verbatim>\<open>id SERIAL\<close>, and the connection events so far.
\<close>

record world =
  db_down :: "string option"
  todos :: "row list option"
  nextval :: int
  conn_log :: "event list"

text \<open>The stored todos: the rows of the relation, none when it does not exist.\<close>

definition table :: "world \<Rightarrow> row list" where
  "table w = (case todos w of None \<Rightarrow> [] | Some rs \<Rightarrow> rs)"

text \<open>
  An open connection: the relation as last committed, the relation as the open
  transaction sees it, and the sequence (which is not transactional).
\<close>

record conn =
  committed :: "row list option"
  rows :: "row list option"
  seq :: int

text \<open>\<^verbatim>\<open>get_conn()\<close>: a new connection per call, or the driver's error.\<close>

definition get_conn :: "world \<Rightarrow> (error + conn) \<times> world" where
  "get_conn w =
     (case db_down w of
        Some msg \<Rightarrow> (Inl (Psycopg2Error msg), w\<lparr>conn_log := conn_log w @ [Connect_failed]\<rparr>)
      | None \<Rightarrow>
          (Inr \<lparr>committed = todos w, rows = todos w, seq = nextval w\<rparr>,
           w\<lparr>conn_log := conn_log w @ [Connected]\<rparr>))"

definition commit :: "conn \<Rightarrow> conn" where
  "commit c = c\<lparr>committed := rows c\<rparr>"

definition rollback :: "conn \<Rightarrow> conn" where
  "rollback c = c\<lparr>rows := committed c\<rparr>"

text \<open>
  \<^verbatim>\<open>with get_conn() as conn: body\<close>. When the connection cannot be opened the body
  does not run. Leaving the block commits when the body returned and rolls back when it
  raised; what is committed then is the table, and the sequence keeps its value.
\<close>

definition with_conn :: "world \<Rightarrow> (conn \<Rightarrow> (error + 'a) \<times> conn) \<Rightarrow> (error + 'a) \<times> world" where
  "with_conn w body =
     (case get_conn w of
        (Inl e, w1) \<Rightarrow> (Inl e, w1)
      | (Inr c, w1) \<Rightarrow>
          (case body c of
             (Inl e, c1) \<Rightarrow>
               (Inl e, w1\<lparr>todos := committed (rollback c1), nextval := seq c1,
                          conn_log := conn_log w1 @ [Exit_rollback]\<rparr>)
           | (Inr x, c1) \<Rightarrow>
               (Inr x, w1\<lparr>todos := committed (commit c1), nextval := seq c1,
                          conn_log := conn_log w1 @ [Exit_commit]\<rparr>)))"

subsection \<open>The SQL statements\<close>

text \<open>
  A statement on \<^verbatim>\<open>todos\<close> raises \<^verbatim>\<open>psycopg2.errors.UndefinedTable\<close>, an error of the
  driver, when the relation does not exist.
\<close>

definition undefined_table :: error where
  "undefined_table = Psycopg2Error ''relation todos does not exist''"

text \<open>
  \<^verbatim>\<open>CREATE TABLE IF NOT EXISTS todos (id SERIAL PRIMARY KEY, ...)\<close>: a new, empty relation
  with a new sequence that starts at 1, or no change.
\<close>

definition sql_create_table :: "conn \<Rightarrow> conn" where
  "sql_create_table c = (case rows c of None \<Rightarrow> c\<lparr>rows := Some [], seq := 1\<rparr> | Some _ \<Rightarrow> c)"

text \<open>\<^verbatim>\<open>SELECT id, title, done FROM todos ORDER BY id DESC\<close>\<close>

definition sql_select_all :: "conn \<Rightarrow> error + row list" where
  "sql_select_all c =
     (case rows c of
        None \<Rightarrow> Inl undefined_table
      | Some rs \<Rightarrow> Inr (rev (sort_key row_id rs)))"

text \<open>
  The driver turns a \<^verbatim>\<open>str\<close> parameter into a literal before the statement is sent: it
  encodes the text for the connection, which a surrogate code point (U+D800..U+DFFF)
  makes fail with \<^verbatim>\<open>UnicodeEncodeError\<close>, and it refuses a NUL with \<^verbatim>\<open>ValueError\<close>.
\<close>

definition adapt :: "str \<Rightarrow> error + str" where
  "adapt t =
     (if list_ex (\<lambda>c. 55296 \<le> c \<and> c \<le> 57343) t
      then Inl (ValueError ''surrogates not allowed'')
      else if list_ex (\<lambda>c. c = 0) t
      then Inl (ValueError ''A string literal cannot contain NUL (0x00) characters.'')
      else Inr t)"

text \<open>
  \<^verbatim>\<open>INSERT INTO todos(title, done) VALUES (%s, FALSE) RETURNING id, title, done\<close>.
  A title that the driver cannot send stops the statement before the server sees it.
  The identifier is the next value of the sequence behind \<^verbatim>\<open>id SERIAL\<close>, a 32-bit
  integer column: the sequence stops at its largest value, it advances even when the
  statement then fails, and the primary key refuses an identifier that is already stored.
\<close>

definition serial_max :: int where
  "serial_max = 2147483647"

definition sql_insert :: "conn \<Rightarrow> str \<Rightarrow> (error + row option) \<times> conn" where
  "sql_insert c t =
     (case adapt t of
        Inl e \<Rightarrow> (Inl e, c)
      | Inr p \<Rightarrow>
          (case rows c of
             None \<Rightarrow> (Inl undefined_table, c)
           | Some rs \<Rightarrow>
               (let i = seq c
                in if serial_max < i
                   then (Inl (Psycopg2Error ''nextval: reached maximum value of sequence''), c)
                   else
                     (let c1 = c\<lparr>seq := i + 1\<rparr>
                      in if i \<in> set (map row_id rs)
                         then (Inl (Psycopg2Error
                                 ''duplicate key value violates unique constraint''), c1)
                         else (Inr (Some (i, p, False)),
                               c1\<lparr>rows := Some (rs @ [(i, p, False)])\<rparr>)))))"

text \<open>
  \<^verbatim>\<open>UPDATE todos SET done = NOT done WHERE id = %s RETURNING id, title, done\<close>,
  followed by \<^verbatim>\<open>fetchone()\<close>: the first updated row, or \<^verbatim>\<open>None\<close>.
\<close>

fun flip_done :: "int \<Rightarrow> row \<Rightarrow> row" where
  "flip_done i (j, t, d) = (if j = i then (j, t, \<not> d) else (j, t, d))"

definition sql_update_toggle :: "conn \<Rightarrow> int \<Rightarrow> (error + row option) \<times> conn" where
  "sql_update_toggle c i =
     (case rows c of
        None \<Rightarrow> (Inl undefined_table, c)
      | Some rs \<Rightarrow>
          (let rs1 = map (flip_done i) rs
           in (Inr (find (\<lambda>r. row_id r = i) rs1), c\<lparr>rows := Some rs1\<rparr>)))"

text \<open>\<^verbatim>\<open>DELETE FROM todos WHERE id = %s\<close>, with \<^verbatim>\<open>cur.rowcount\<close>.\<close>

definition sql_delete :: "conn \<Rightarrow> int \<Rightarrow> (error + nat) \<times> conn" where
  "sql_delete c i =
     (case rows c of
        None \<Rightarrow> (Inl undefined_table, c)
      | Some rs \<Rightarrow>
          (Inr (length (filter (\<lambda>r. row_id r = i) rs)),
           c\<lparr>rows := Some (filter (\<lambda>r. row_id r \<noteq> i) rs)\<rparr>))"

section \<open>Whitespace\<close>

text \<open>
  The code points for which \<^verbatim>\<open>str.isspace\<close> holds, which are the ones
  \<^verbatim>\<open>str.strip()\<close> removes: U+0009..U+000D, U+001C..U+0020, U+0085, U+00A0, U+1680,
  U+2000..U+200A, U+2028, U+2029, U+202F, U+205F, U+3000.
\<close>

definition isspace :: "nat \<Rightarrow> bool" where
  "isspace c \<longleftrightarrow>
     (9 \<le> c \<and> c \<le> 13) \<or> (28 \<le> c \<and> c \<le> 32) \<or> c = 133 \<or> c = 160 \<or> c = 5760 \<or>
     (8192 \<le> c \<and> c \<le> 8202) \<or> c = 8232 \<or> c = 8233 \<or> c = 8239 \<or> c = 8287 \<or> c = 12288"

definition strip :: "str \<Rightarrow> str" where
  "strip s = rev (dropWhile isspace (rev (dropWhile isspace s)))"

section \<open>Start-up and the request handlers\<close>

text \<open>
  \<^verbatim>\<open>lifespan\<close>, before the first request: the table is created when it does not exist.
  An error of the driver is printed and the application starts all the same, so a
  start-up without a reachable server leaves the relation as it was, missing if it was
  missing.
\<close>

definition lifespan :: "world \<Rightarrow> world" where
  "lifespan w = snd (with_conn w (\<lambda>c. (Inr (), commit (sql_create_table c))))"

text \<open>
  \<^verbatim>\<open>GET /health\<close>: inside the connection's \<^verbatim>\<open>with\<close> block the handler runs
  \<^verbatim>\<open>SELECT 1\<close> and fetches its row, which touches no table. The \<^verbatim>\<open>except\<close> clause
  catches the errors of the driver and nothing else.
\<close>

record HealthOut =
  service :: string
  database :: string

definition health :: "world \<Rightarrow> (error + HealthOut) \<times> world" where
  "health w =
     (case with_conn w (\<lambda>c. (Inr (), c)) of
        (Inr _, w1) \<Rightarrow> (Inr \<lparr>service = ''ok'', database = ''ok''\<rparr>, w1)
      | (Inl (Psycopg2Error msg), w1) \<Rightarrow>
          (Inr \<lparr>service = ''ok'', database = ''error: '' @ msg\<rparr>, w1)
      | (Inl e, w1) \<Rightarrow> (Inl e, w1))"

text \<open>\<^verbatim>\<open>GET /\<close>: a constant answer, with no access to the database.\<close>

record RootOut =
  message :: string
  docs :: string

definition root :: "world \<Rightarrow> (error + RootOut) \<times> world" where
  "root w = (Inr \<lparr>message = ''Lightsail FastAPI Demo'', docs = ''/docs''\<rparr>, w)"

text \<open>\<^verbatim>\<open>GET /todos\<close>\<close>

definition list_todos :: "world \<Rightarrow> (error + TodoOut list) \<times> world" where
  "list_todos w =
     with_conn w (\<lambda>c.
       case sql_select_all c of
         Inl e \<Rightarrow> (Inl e, c)
       | Inr rs \<Rightarrow> (Inr (map todo_out rs), c))"

text \<open>
  \<^verbatim>\<open>POST /todos\<close>, \<^verbatim>\<open>status_code=201\<close>. The title is checked before the connection
  is opened; the commit comes before the check of the returned row.
\<close>

definition create_todo :: "world \<Rightarrow> TodoIn \<Rightarrow> (error + TodoOut) \<times> world" where
  "create_todo w todo =
     (if strip (title_in todo) = [] then (Inl (HTTPException 400 Titulo_obrigatorio), w)
      else with_conn w (\<lambda>c.
             case sql_insert c (strip (title_in todo)) of
               (Inl e, c1) \<Rightarrow> (Inl e, c1)
             | (Inr r, c1) \<Rightarrow>
                 (let c2 = commit c1
                  in case r of
                       None \<Rightarrow> (Inl (HTTPException 500 Falha_inserir), c2)
                     | Some r1 \<Rightarrow> (Inr (todo_out r1), c2))))"

text \<open>\<^verbatim>\<open>PATCH /todos/{todo_id}\<close>\<close>

definition toggle_done :: "world \<Rightarrow> int \<Rightarrow> (error + TodoOut) \<times> world" where
  "toggle_done w i =
     with_conn w (\<lambda>c.
       case sql_update_toggle c i of
         (Inl e, c1) \<Rightarrow> (Inl e, c1)
       | (Inr None, c1) \<Rightarrow> (Inl (HTTPException 404 Nao_encontrado), c1)
       | (Inr (Some r), c1) \<Rightarrow> (Inr (todo_out r), commit c1))"

text \<open>\<^verbatim>\<open>DELETE /todos/{todo_id}\<close>, \<^verbatim>\<open>status_code=204\<close>; the handler returns \<^verbatim>\<open>None\<close>.\<close>

definition delete_todo :: "world \<Rightarrow> int \<Rightarrow> (error + unit) \<times> world" where
  "delete_todo w i =
     with_conn w (\<lambda>c.
       case sql_delete c i of
         (Inl e, c1) \<Rightarrow> (Inl e, c1)
       | (Inr n, c1) \<Rightarrow>
           if n = 0 then (Inl (HTTPException 404 Nao_encontrado), c1)
           else (Inr (), commit c1))"

text \<open>
  The status of the answer to each route, with the \<^verbatim>\<open>status_code\<close> of its decorator
  (200 where the decorator names none).
\<close>

definition get_todos_status :: "world \<Rightarrow> nat" where
  "get_todos_status w = http_status 200 (fst (list_todos w))"

definition post_todos_status :: "world \<Rightarrow> TodoIn \<Rightarrow> nat" where
  "post_todos_status w todo = http_status 201 (fst (create_todo w todo))"

definition patch_todo_status :: "world \<Rightarrow> int \<Rightarrow> nat" where
  "patch_todo_status w i = http_status 200 (fst (toggle_done w i))"

definition delete_todo_status :: "world \<Rightarrow> int \<Rightarrow> nat" where
  "delete_todo_status w i = http_status 204 (fst (delete_todo w i))"

text \<open>
  The table as the primary key and the sequence keep it: identifiers are pairwise
  distinct and all below the next value of the sequence.
\<close>

definition wf_table :: "world \<Rightarrow> bool" where
  "wf_table w \<longleftrightarrow>
     distinct (map row_id (table w)) \<and> list_all (\<lambda>r. row_id r < nextval w) (table w)"

text \<open>
  The world after a start-up that reached the server of a new database: the relation
  exists and is empty.
\<close>

definition init_world :: world where
  "init_world = \<lparr>db_down = None, todos = Some [], nextval = 1, conn_log = []\<rparr>"


section \<open>Requests\<close>

text \<open>The routes of the application, one constructor per decorated handler.\<close>

datatype request =
  Health | Root | List_todos | Create_todo TodoIn | Toggle_done int | Delete_todo int

text \<open>The world after a request has been handled.\<close>

fun serve :: "world \<Rightarrow> request \<Rightarrow> world" where
  "serve w Health = snd (health w)"
| "serve w Root = snd (root w)"
| "serve w List_todos = snd (list_todos w)"
| "serve w (Create_todo todo) = snd (create_todo w todo)"
| "serve w (Toggle_done i) = snd (toggle_done w i)"
| "serve w (Delete_todo i) = snd (delete_todo w i)"

fun serve_all :: "world \<Rightarrow> request list \<Rightarrow> world" where
  "serve_all w [] = w"
| "serve_all w (q # qs) = serve_all (serve w q) qs"

text \<open>Whether the handler of a request ends by raising an error.\<close>

definition raised :: "error + 'a \<Rightarrow> bool" where
  "raised r = (case r of Inl _ \<Rightarrow> True | Inr _ \<Rightarrow> False)"

fun raises :: "world \<Rightarrow> request \<Rightarrow> bool" where
  "raises w Health = raised (fst (health w))"
| "raises w Root = raised (fst (root w))"
| "raises w List_todos = raised (fst (list_todos w))"
| "raises w (Create_todo todo) = raised (fst (create_todo w todo))"
| "raises w (Toggle_done i) = raised (fst (toggle_done w i))"
| "raises w (Delete_todo i) = raised (fst (delete_todo w i))"


text \<open>
  An identifier that the sequence has passed and that the table does not hold: no later
  insertion can bring it back.
\<close>

definition retired :: "int \<Rightarrow> world \<Rightarrow> bool" where
  "retired i w \<longleftrightarrow> i < nextval w \<and> i \<notin> set (map row_id (table w))"

section \<open>Auxiliary facts\<close>

subsection \<open>Lists, rows and whitespace\<close>

lemma strip_Nil_iff: "strip s = [] \<longleftrightarrow> (\<forall>c \<in> set s. isspace c)"
proof -
  have "(\<forall>x \<in> set (dropWhile isspace s). isspace x) \<longleftrightarrow> (\<forall>x \<in> set s. isspace x)"
  proof
    assume a: "\<forall>x \<in> set (dropWhile isspace s). isspace x"
    have "dropWhile isspace s = []"
    proof (rule ccontr)
      assume n: "dropWhile isspace s \<noteq> []"
      then have "\<not> isspace (hd (dropWhile isspace s))" by (rule hd_dropWhile)
      moreover have "hd (dropWhile isspace s) \<in> set (dropWhile isspace s)" using n by simp
      ultimately show False using a by blast
    qed
    then show "\<forall>x \<in> set s. isspace x" by (simp add: dropWhile_eq_Nil_conv)
  next
    assume "\<forall>x \<in> set s. isspace x"
    then show "\<forall>x \<in> set (dropWhile isspace s). isspace x"
      by (blast dest: set_dropWhileD)
  qed
  then show ?thesis by (simp add: strip_def dropWhile_eq_Nil_conv)
qed

lemma rev_split: "u = rev (dropWhile P (rev u)) @ rev (takeWhile P (rev u))"
proof -
  have "rev (dropWhile P (rev u)) @ rev (takeWhile P (rev u)) =
        rev (takeWhile P (rev u) @ dropWhile P (rev u))"
    by (simp only: rev_append)
  also have "\<dots> = rev (rev u)" by (simp only: takeWhile_dropWhile_id)
  also have "\<dots> = u" by (simp only: rev_rev_ident)
  finally show ?thesis by (rule sym)
qed

lemma strip_decomp:
  "\<exists>l r. s = l @ strip s @ r \<and> (\<forall>c \<in> set l. isspace c) \<and> (\<forall>c \<in> set r. isspace c)"
proof -
  let ?u = "dropWhile isspace s"
  let ?l = "takeWhile isspace s"
  let ?r = "rev (takeWhile isspace (rev ?u))"
  have u: "?u = strip s @ ?r" unfolding strip_def by (rule rev_split)
  have "s = ?l @ ?u" by simp
  with u have "s = ?l @ strip s @ ?r" by simp
  moreover have "\<forall>c \<in> set ?l. isspace c" by (blast dest: set_takeWhileD)
  moreover have "\<forall>c \<in> set ?r. isspace c" by (auto dest: set_takeWhileD)
  ultimately show ?thesis by blast
qed

lemma strip_ends:
  assumes "strip s \<noteq> []"
  shows "\<not> isspace (hd (strip s)) \<and> \<not> isspace (last (strip s))"
proof -
  let ?u = "dropWhile isspace s"
  let ?v = "dropWhile isspace (rev ?u)"
  have v: "?v \<noteq> []" using assms by (simp add: strip_def)
  then have "\<not> isspace (hd ?v)" by (rule hd_dropWhile)
  moreover have "last (strip s) = hd ?v" using v by (simp add: strip_def last_rev)
  ultimately have l: "\<not> isspace (last (strip s))" by simp
  have un: "?u \<noteq> []"
  proof
    assume "?u = []"
    then have "?v = dropWhile isspace (rev [])" by (rule arg_cong)
    with v show False by simp
  qed
  then have hu: "\<not> isspace (hd ?u)" by (rule hd_dropWhile)
  have "?u = strip s @ rev (takeWhile isspace (rev ?u))" unfolding strip_def by (rule rev_split)
  then have "hd ?u = hd (strip s @ rev (takeWhile isspace (rev ?u)))" by (rule arg_cong)
  with assms have "hd ?u = hd (strip s)" by simp
  with hu l show ?thesis by simp
qed

lemma row_id_flip: "row_id (flip_done i r) = row_id r"
  by (cases r) (simp add: row_id_def)

lemma find_flip:
  "distinct (map row_id xs) \<Longrightarrow> (i, t, d) \<in> set xs \<Longrightarrow>
   find (\<lambda>r. row_id r = i) (map (flip_done i) xs) = Some (i, t, \<not> d)"
proof (induction xs)
  case Nil then show ?case by simp
next
  case (Cons x xs)
  obtain j u e where x: "x = (j, u, e)" by (cases x)
  show ?case
  proof (cases "j = i")
    case True
    with Cons.prems x have "x = (i, t, d)"
      by (force simp: row_id_def)
    with x True show ?thesis by (simp add: row_id_def)
  next
    case False
    with Cons x show ?thesis by (auto simp: row_id_def)
  qed
qed

lemma find_flip_absent:
  "i \<notin> set (map row_id xs) \<Longrightarrow> find (\<lambda>r. row_id r = i) (map (flip_done i) xs) = None"
  by (induction xs) (auto simp: row_id_def)

lemma find_flip_present:
  "i \<in> set (map row_id xs) \<Longrightarrow> \<exists>r. find (\<lambda>r. row_id r = i) (map (flip_done i) xs) = Some r"
  by (cases "find (\<lambda>r. row_id r = i) (map (flip_done i) xs)")
     (auto simp: find_None_iff row_id_flip)

lemma flip_absent: "i \<notin> set (map row_id xs) \<Longrightarrow> map (flip_done i) xs = xs"
  by (induction xs) (auto simp: row_id_def)

lemma flip_flip: "flip_done i (flip_done i r) = r"
  by (cases r) simp

lemma map_row_id_flip: "map row_id (map (flip_done i) xs) = map row_id xs"
  by (induction xs) (simp_all add: row_id_flip)

lemma row_id_mem: "(i, t, d) \<in> set xs \<Longrightarrow> i \<in> set (map row_id xs)"
  by (force simp: row_id_def)

lemma filter_id_empty_iff: "filter (\<lambda>r. row_id r = i) xs = [] \<longleftrightarrow> i \<notin> set (map row_id xs)"
  by (induction xs) auto

lemma filter_absent: "i \<notin> set (map row_id xs) \<Longrightarrow> filter (\<lambda>r. row_id r \<noteq> i) xs = xs"
  by (induction xs) auto

lemma filter_removes_row:
  "distinct (map row_id xs) \<Longrightarrow> (i, t, d) \<in> set xs \<Longrightarrow>
   filter (\<lambda>r. row_id r \<noteq> i) xs = filter (\<lambda>r. r \<noteq> (i, t, d)) xs"
proof (induction xs)
  case Nil then show ?case by simp
next
  case (Cons x xs)
  show ?case
  proof (cases "x = (i, t, d)")
    case True
    with Cons.prems have "i \<notin> set (map row_id xs)" by (simp add: row_id_def)
    then have "filter (\<lambda>r. row_id r \<noteq> i) xs = xs" by (rule filter_absent)
    moreover have "filter (\<lambda>r. r \<noteq> (i, t, d)) xs = xs"
      using \<open>i \<notin> set (map row_id xs)\<close> row_id_mem [of i t d xs] by (auto simp: filter_id_conv)
    ultimately show ?thesis using True by (simp add: row_id_def)
  next
    case False
    with Cons.prems have m: "(i, t, d) \<in> set xs" by simp
    then have "i \<in> set (map row_id xs)" by (rule row_id_mem)
    with Cons.prems have "row_id x \<noteq> i" by auto
    with Cons m False show ?thesis by simp
  qed
qed

lemma todo_id_out: "todo_id (todo_out r) = row_id r"
  by (cases r) (simp add: row_id_def)

lemma sorted_desc:
  "distinct (map row_id xs) \<Longrightarrow> sorted_wrt (>) (map row_id (rev (sort_key row_id xs)))"
proof -
  assume d: "distinct (map row_id xs)"
  have s: "sorted (map row_id (sort_key row_id xs))" by simp
  have "distinct (map row_id (sort_key row_id xs))" using d by (simp add: distinct_map)
  with s have "sorted_wrt (<) (map row_id (sort_key row_id xs))"
    by (simp add: strict_sorted_iff)
  then have "sorted_wrt (\<lambda>x y. y < x) (rev (map row_id (sort_key row_id xs)))"
    by (simp add: sorted_wrt_rev)
  then show ?thesis by (simp add: rev_map)
qed

lemma wf_table_ids:
  "wf_table w \<longleftrightarrow>
     distinct (map row_id (table w)) \<and> (\<forall>i \<in> set (map row_id (table w)). i < nextval w)"
  by (auto simp: wf_table_def list_all_iff)

subsection \<open>What start-up and each handler compute\<close>

lemma table_Some: "todos w = Some rs \<Longrightarrow> table w = rs"
  by (simp add: table_def)

lemma table_None: "todos w = None \<Longrightarrow> table w = []"
  by (simp add: table_def)

lemma table_update: "table (w\<lparr>todos := x, nextval := n, conn_log := l\<rparr>) = (case x of None \<Rightarrow> [] | Some rs \<Rightarrow> rs)"
  by (simp add: table_def)

lemma todos_of_member: "r \<in> set (table w) \<Longrightarrow> todos w = Some (table w)"
  by (cases "todos w") (simp_all add: table_def)

lemma todos_of_exists: "todos w \<noteq> None \<Longrightarrow> todos w = Some (table w)"
  by (cases "todos w") (simp_all add: table_def)

lemma adapt_Inr: "adapt t = Inr p \<Longrightarrow> p = t"
  by (simp add: adapt_def split: if_splits)

lemma adapt_ok:
  "\<forall>c \<in> set t. c \<noteq> 0 \<and> \<not> (55296 \<le> c \<and> c \<le> 57343) \<Longrightarrow> adapt t = Inr t"
  by (auto simp: adapt_def list_ex_iff)

lemma with_conn_up:
  "db_down w = None \<Longrightarrow>
   with_conn w body =
     (case body \<lparr>committed = todos w, rows = todos w, seq = nextval w\<rparr> of
        (Inl e, c1) \<Rightarrow>
          (Inl e, w\<lparr>todos := committed c1, nextval := seq c1,
                    conn_log := conn_log w @ [Connected, Exit_rollback]\<rparr>)
      | (Inr x, c1) \<Rightarrow>
          (Inr x, w\<lparr>todos := rows c1, nextval := seq c1,
                    conn_log := conn_log w @ [Connected, Exit_commit]\<rparr>))"
  by (simp add: with_conn_def get_conn_def commit_def rollback_def split: prod.splits sum.splits)

lemma with_conn_down:
  "db_down w = Some msg \<Longrightarrow>
   with_conn w body = (Inl (Psycopg2Error msg), w\<lparr>conn_log := conn_log w @ [Connect_failed]\<rparr>)"
  by (simp add: with_conn_def get_conn_def)

lemma create_result:
  "fst (create_todo w todo) =
     (if strip (title_in todo) = [] then Inl (HTTPException 400 Titulo_obrigatorio)
      else case db_down w of
             Some msg \<Rightarrow> Inl (Psycopg2Error msg)
           | None \<Rightarrow>
               (case adapt (strip (title_in todo)) of
                  Inl e \<Rightarrow> Inl e
                | Inr p \<Rightarrow>
                    (case todos w of
                       None \<Rightarrow> Inl undefined_table
                     | Some rs \<Rightarrow>
                         if serial_max < nextval w
                         then Inl (Psycopg2Error ''nextval: reached maximum value of sequence'')
                         else if nextval w \<in> set (map row_id rs)
                         then Inl (Psycopg2Error
                                ''duplicate key value violates unique constraint'')
                         else Inr \<lparr>todo_id = nextval w, title = p, todo_done = False\<rparr>)))"
  by (cases "db_down w")
     (simp_all add: create_todo_def with_conn_up with_conn_down sql_insert_def commit_def Let_def
        split: sum.splits option.splits)

lemma create_up:
  assumes "db_down w = None" "todos w \<noteq> None" "wf_table w" "nextval w \<le> serial_max"
    "adapt (strip t) = Inr (strip t)" "strip t \<noteq> []"
  shows "create_todo w (TodoIn t) =
     (Inr \<lparr>todo_id = nextval w, title = strip t, todo_done = False\<rparr>,
      w\<lparr>todos := Some (table w @ [(nextval w, strip t, False)]), nextval := nextval w + 1,
        conn_log := conn_log w @ [Connected, Exit_commit]\<rparr>)"
proof -
  have "nextval w \<notin> row_id ` set (table w)"
    using assms(3) by (auto simp: wf_table_def list_all_iff)
  moreover have "todos w = Some (table w)" using assms(2) by (rule todos_of_exists)
  ultimately show ?thesis
    using assms(1,4,5,6)
    by (simp add: create_todo_def with_conn_up sql_insert_def commit_def Let_def)
qed

lemma create_effect:
  "(table (snd (create_todo w todo)) = table w
      \<and> nextval w \<le> nextval (snd (create_todo w todo)))
   \<or> (table (snd (create_todo w todo)) =
         table w @ [(nextval w, strip (title_in todo), False)]
      \<and> nextval w \<notin> set (map row_id (table w))
      \<and> nextval (snd (create_todo w todo)) = nextval w + 1)"
  by (cases "db_down w")
     (auto simp: create_todo_def with_conn_up with_conn_down sql_insert_def commit_def Let_def
        table_def dest: adapt_Inr split: sum.splits option.splits)

lemma create_exists: "todos (snd (create_todo w todo)) = None \<longleftrightarrow> todos w = None"
  by (cases "db_down w")
     (auto simp: create_todo_def with_conn_up with_conn_down sql_insert_def commit_def Let_def
        split: sum.splits option.splits)

lemma create_table:
  assumes "strip (title_in todo) \<noteq> []" "db_down w = None" "todos w \<noteq> None"
    "adapt (strip (title_in todo)) = Inr (strip (title_in todo))"
    "nextval w \<le> serial_max" "nextval w \<notin> set (map row_id (table w))"
  shows "table (snd (create_todo w todo)) =
           table w @ [(nextval w, strip (title_in todo), False)]"
proof -
  obtain rs where rs: "todos w = Some rs" using assms(3) by auto
  then have t: "table w = rs" by (rule table_Some)
  show ?thesis
    using assms(1,2,4,5,6) rs unfolding t
    by (simp add: create_todo_def with_conn_up sql_insert_def commit_def Let_def table_def)
qed

lemma toggle_up_present:
  assumes "db_down w = None" "distinct (map row_id (table w))" "(i, t, d) \<in> set (table w)"
  shows "toggle_done w i =
     (Inr \<lparr>todo_id = i, title = t, todo_done = \<not> d\<rparr>,
      w\<lparr>todos := Some (map (flip_done i) (table w)), nextval := nextval w,
        conn_log := conn_log w @ [Connected, Exit_commit]\<rparr>)"
proof -
  have "todos w = Some (table w)" using assms(3) by (rule todos_of_member)
  then show ?thesis
    using assms
    by (simp add: toggle_done_def with_conn_up sql_update_toggle_def commit_def Let_def find_flip)
qed

lemma toggle_up_absent:
  assumes "db_down w = None" "todos w \<noteq> None" "i \<notin> set (map row_id (table w))"
  shows "toggle_done w i =
     (Inl (HTTPException 404 Nao_encontrado),
      w\<lparr>todos := todos w, nextval := nextval w,
        conn_log := conn_log w @ [Connected, Exit_rollback]\<rparr>)"
proof -
  have "todos w = Some (table w)" using assms(2) by (rule todos_of_exists)
  then show ?thesis
    using assms(1,3)
    by (simp add: toggle_done_def with_conn_up sql_update_toggle_def Let_def find_flip_absent)
qed

lemma toggle_up_missing:
  assumes "db_down w = None" "todos w = None"
  shows "toggle_done w i =
     (Inl undefined_table,
      w\<lparr>todos := None, nextval := nextval w,
        conn_log := conn_log w @ [Connected, Exit_rollback]\<rparr>)"
  using assms by (simp add: toggle_done_def with_conn_up sql_update_toggle_def)

lemma toggle_down:
  "db_down w = Some msg \<Longrightarrow>
   toggle_done w i = (Inl (Psycopg2Error msg), w\<lparr>conn_log := conn_log w @ [Connect_failed]\<rparr>)"
  by (simp add: toggle_done_def with_conn_down)

lemma toggle_ids: "map row_id (table (snd (toggle_done w i))) = map row_id (table w)"
  and toggle_table:
  "table (snd (toggle_done w i)) =
     (if db_down w = None then map (flip_done i) (table w) else table w)"
proof -
  show t: "table (snd (toggle_done w i)) =
     (if db_down w = None then map (flip_done i) (table w) else table w)"
  proof (cases "db_down w")
    case (Some msg)
    then show ?thesis by (simp add: toggle_down table_def)
  next
    case None
    show ?thesis
    proof (cases "todos w")
      case n: None
      with None show ?thesis by (simp add: toggle_up_missing table_def)
    next
      case (Some rs)
      then have rs: "table w = rs" by (rule table_Some)
      show ?thesis
      proof (cases "i \<in> set (map row_id rs)")
        case True
        then obtain r where "find (\<lambda>r. row_id r = i) (map (flip_done i) rs) = Some r"
          using find_flip_present by blast
        with None Some rs show ?thesis
          by (simp add: toggle_done_def with_conn_up sql_update_toggle_def commit_def Let_def
                table_def)
      next
        case False
        with None Some rs show ?thesis
          by (simp add: toggle_up_absent flip_absent table_def)
      qed
    qed
  qed
  show "map row_id (table (snd (toggle_done w i))) = map row_id (table w)"
    unfolding t by (simp add: map_row_id_flip del: map_map)
qed

lemma toggle_nextval: "nextval (snd (toggle_done w i)) = nextval w"
  by (cases "db_down w")
     (simp_all add: toggle_done_def with_conn_up with_conn_down sql_update_toggle_def commit_def
        Let_def split: option.splits)

lemma toggle_exists: "todos (snd (toggle_done w i)) = None \<longleftrightarrow> todos w = None"
  by (cases "db_down w")
     (simp_all add: toggle_done_def with_conn_up with_conn_down sql_update_toggle_def commit_def
        Let_def split: option.splits)

lemma delete_up_present:
  assumes "db_down w = None" "i \<in> set (map row_id (table w))"
  shows "delete_todo w i =
     (Inr (),
      w\<lparr>todos := Some (filter (\<lambda>r. row_id r \<noteq> i) (table w)), nextval := nextval w,
        conn_log := conn_log w @ [Connected, Exit_commit]\<rparr>)"
proof -
  from assms(2) obtain r where "r \<in> set (table w)" by auto
  then have "todos w = Some (table w)" by (rule todos_of_member)
  then show ?thesis
    using assms
    by (simp add: delete_todo_def with_conn_up sql_delete_def commit_def filter_id_empty_iff)
qed

lemma delete_up_absent:
  assumes "db_down w = None" "todos w \<noteq> None" "i \<notin> set (map row_id (table w))"
  shows "delete_todo w i =
     (Inl (HTTPException 404 Nao_encontrado),
      w\<lparr>todos := todos w, nextval := nextval w,
        conn_log := conn_log w @ [Connected, Exit_rollback]\<rparr>)"
proof -
  have "todos w = Some (table w)" using assms(2) by (rule todos_of_exists)
  then show ?thesis
    using assms(1,3)
    by (simp add: delete_todo_def with_conn_up sql_delete_def filter_id_empty_iff)
qed

lemma delete_up_missing:
  assumes "db_down w = None" "todos w = None"
  shows "delete_todo w i =
     (Inl undefined_table,
      w\<lparr>todos := None, nextval := nextval w,
        conn_log := conn_log w @ [Connected, Exit_rollback]\<rparr>)"
  using assms by (simp add: delete_todo_def with_conn_up sql_delete_def)

lemma delete_down:
  "db_down w = Some msg \<Longrightarrow>
   delete_todo w i = (Inl (Psycopg2Error msg), w\<lparr>conn_log := conn_log w @ [Connect_failed]\<rparr>)"
  by (simp add: delete_todo_def with_conn_down)

lemma delete_table:
  "table (snd (delete_todo w i)) =
     (if db_down w = None then filter (\<lambda>r. row_id r \<noteq> i) (table w) else table w)"
proof (cases "db_down w")
  case (Some msg)
  then show ?thesis by (simp add: delete_down table_def)
next
  case None
  show ?thesis
  proof (cases "todos w")
    case n: None
    with None show ?thesis by (simp add: delete_up_missing table_def)
  next
    case (Some rs)
    with None show ?thesis
      by (cases "i \<in> set (map row_id (table w))")
         (simp_all add: delete_up_present delete_up_absent filter_absent table_def)
  qed
qed

lemma delete_nextval: "nextval (snd (delete_todo w i)) = nextval w"
  by (cases "db_down w")
     (simp_all add: delete_todo_def with_conn_up with_conn_down sql_delete_def commit_def
        split: option.splits)

lemma delete_exists: "todos (snd (delete_todo w i)) = None \<longleftrightarrow> todos w = None"
  by (cases "db_down w")
     (simp_all add: delete_todo_def with_conn_up with_conn_down sql_delete_def commit_def
        split: option.splits)

lemma list_up:
  "db_down w = None \<Longrightarrow> todos w \<noteq> None \<Longrightarrow>
   list_todos w =
     (Inr (map todo_out (rev (sort_key row_id (table w)))),
      w\<lparr>todos := todos w, nextval := nextval w,
        conn_log := conn_log w @ [Connected, Exit_commit]\<rparr>)"
  by (auto simp: list_todos_def with_conn_up sql_select_all_def table_def)

lemma list_up_missing:
  "db_down w = None \<Longrightarrow> todos w = None \<Longrightarrow>
   list_todos w =
     (Inl undefined_table,
      w\<lparr>todos := None, nextval := nextval w,
        conn_log := conn_log w @ [Connected, Exit_rollback]\<rparr>)"
  by (simp add: list_todos_def with_conn_up sql_select_all_def)

lemma list_down:
  "db_down w = Some msg \<Longrightarrow>
   list_todos w = (Inl (Psycopg2Error msg), w\<lparr>conn_log := conn_log w @ [Connect_failed]\<rparr>)"
  by (simp add: list_todos_def with_conn_down)

lemma list_todos_kept: "todos (snd (list_todos w)) = todos w"
  by (cases "db_down w"; cases "todos w")
     (simp_all add: list_todos_def with_conn_up with_conn_down sql_select_all_def)

lemma list_table: "table (snd (list_todos w)) = table w"
  by (simp add: table_def list_todos_kept)

lemma list_nextval: "nextval (snd (list_todos w)) = nextval w"
  by (cases "db_down w"; cases "todos w")
     (simp_all add: list_todos_def with_conn_up with_conn_down sql_select_all_def)

lemma health_todos_kept: "todos (snd (health w)) = todos w"
  by (cases "db_down w") (simp_all add: health_def with_conn_up with_conn_down)

lemma health_table: "table (snd (health w)) = table w"
  by (simp add: table_def health_todos_kept)

lemma health_nextval: "nextval (snd (health w)) = nextval w"
  by (cases "db_down w") (simp_all add: health_def with_conn_up with_conn_down)

lemma lifespan_creates:
  "db_down w = None \<Longrightarrow> todos w = None \<Longrightarrow>
   todos (lifespan w) = Some [] \<and> nextval (lifespan w) = 1"
  by (simp add: lifespan_def with_conn_up sql_create_table_def commit_def)

lemma lifespan_keeps:
  "todos w \<noteq> None \<Longrightarrow> todos (lifespan w) = todos w \<and> nextval (lifespan w) = nextval w"
  by (cases "db_down w")
     (auto simp: lifespan_def with_conn_up with_conn_down sql_create_table_def commit_def)

lemma lifespan_unreachable:
  "db_down w = Some msg \<Longrightarrow> todos (lifespan w) = todos w"
  by (simp add: lifespan_def with_conn_down)

subsection \<open>What every request preserves\<close>

lemma db_down_with_conn: "db_down (snd (with_conn w body)) = db_down w"
  by (cases "db_down w")
     (simp_all add: with_conn_up with_conn_down split: prod.splits sum.splits)

lemma db_down_serve: "db_down (serve w q) = db_down w"
proof (cases q)
  case Health
  then show ?thesis
    by (cases "db_down w") (simp_all add: health_def with_conn_up with_conn_down)
next
  case Root
  then show ?thesis by (simp add: root_def)
next
  case List_todos
  then show ?thesis by (simp add: list_todos_def db_down_with_conn)
next
  case (Create_todo todo)
  then show ?thesis by (simp add: create_todo_def db_down_with_conn)
next
  case (Toggle_done i)
  then show ?thesis by (simp add: toggle_done_def db_down_with_conn)
next
  case (Delete_todo i)
  then show ?thesis by (simp add: delete_todo_def db_down_with_conn)
qed

lemma db_down_serve_all: "db_down (serve_all w qs) = db_down w"
  by (induction qs arbitrary: w) (simp_all add: db_down_serve)

lemma exists_serve: "todos (serve w q) = None \<longleftrightarrow> todos w = None"
  by (cases q)
     (simp_all add: health_todos_kept root_def list_todos_kept create_exists toggle_exists
        delete_exists)

lemma exists_serve_all: "todos (serve_all w qs) = None \<longleftrightarrow> todos w = None"
  by (induction qs arbitrary: w) (simp_all add: exists_serve)

lemma retired_serve: "retired i w \<Longrightarrow> retired i (serve w q)"
proof (cases q)
  case Health
  assume "retired i w"
  with Health show ?thesis by (simp add: retired_def health_table health_nextval)
next
  case Root
  assume "retired i w"
  with Root show ?thesis by (simp add: root_def)
next
  case List_todos
  assume "retired i w"
  with List_todos show ?thesis by (simp add: retired_def list_table list_nextval)
next
  case (Create_todo todo)
  assume "retired i w"
  with Create_todo create_effect [of w todo] show ?thesis
    by (auto simp: retired_def row_id_def)
next
  case (Toggle_done j)
  assume "retired i w"
  with Toggle_done show ?thesis
    by (simp add: retired_def toggle_ids toggle_nextval)
next
  case (Delete_todo j)
  assume "retired i w"
  with Delete_todo show ?thesis
    by (auto simp: retired_def delete_table delete_nextval)
qed

lemma retired_serve_all: "retired i w \<Longrightarrow> retired i (serve_all w qs)"
  by (induction qs arbitrary: w) (simp_all add: retired_serve)

lemma wf_serve: "wf_table w \<Longrightarrow> wf_table (serve w q)"
proof (cases q)
  case Health
  assume "wf_table w"
  with Health show ?thesis by (simp add: wf_table_def health_table health_nextval)
next
  case Root
  assume "wf_table w"
  with Root show ?thesis by (simp add: root_def)
next
  case List_todos
  assume "wf_table w"
  with List_todos show ?thesis by (simp add: wf_table_def list_table list_nextval)
next
  case (Create_todo todo)
  assume a: "wf_table w"
  let ?w1 = "snd (create_todo w todo)"
  from a have d: "distinct (map row_id (table w))"
    and b: "\<forall>i \<in> set (map row_id (table w)). i < nextval w"
    by (simp_all add: wf_table_ids)
  from create_effect [of w todo] have "wf_table ?w1"
  proof
    assume "table ?w1 = table w \<and> nextval w \<le> nextval ?w1"
    with d b show ?thesis unfolding wf_table_ids by fastforce
  next
    assume "table ?w1 = table w @ [(nextval w, strip (title_in todo), False)]
      \<and> nextval w \<notin> set (map row_id (table w))
      \<and> nextval ?w1 = nextval w + 1"
    with d b show ?thesis unfolding wf_table_ids by (fastforce simp: row_id_def)
  qed
  with Create_todo show ?thesis by simp
next
  case (Toggle_done j)
  assume a: "wf_table w"
  have "wf_table (snd (toggle_done w j))"
    using a unfolding wf_table_ids toggle_ids toggle_nextval .
  with Toggle_done show ?thesis by simp
next
  case (Delete_todo j)
  assume "wf_table w"
  with Delete_todo show ?thesis
    by (auto simp: wf_table_def delete_table delete_nextval list_all_iff distinct_map_filter)
qed

lemma wf_serve_all: "wf_table w \<Longrightarrow> wf_table (serve_all w qs)"
  by (induction qs arbitrary: w) (simp_all add: wf_serve)

lemma wf_init: "wf_table init_world"
  by (simp add: wf_table_def init_world_def table_def)

lemma wf_reachable: "wf_table (serve_all init_world qs)"
  by (rule wf_serve_all) (rule wf_init)

lemma with_conn_events:
  "conn_log (snd (with_conn w body)) =
     conn_log w @
       (case db_down w of
          Some msg \<Rightarrow> [Connect_failed]
        | None \<Rightarrow> [Connected, if raised (fst (with_conn w body)) then Exit_rollback
                                else Exit_commit])"
  by (cases "db_down w")
     (simp_all add: with_conn_up with_conn_down raised_def split: prod.splits sum.splits)

lemma health_events:
  "conn_log (snd (health w)) =
     conn_log w @
       (case db_down w of
          Some msg \<Rightarrow> [Connect_failed]
        | None \<Rightarrow> [Connected, if raised (fst (health w)) then Exit_rollback else Exit_commit])"
  by (cases "db_down w") (simp_all add: health_def with_conn_up with_conn_down raised_def)

lemma serve_events:
  "conn_log (serve w q) =
     conn_log w @
       (if q = Root \<or> (\<exists>todo. q = Create_todo todo \<and> strip (title_in todo) = []) then []
        else case db_down w of
               Some msg \<Rightarrow> [Connect_failed]
             | None \<Rightarrow> [Connected, if raises w q then Exit_rollback else Exit_commit])"
proof (cases q)
  case Health
  then show ?thesis by (simp add: health_events)
next
  case Root
  then show ?thesis by (simp add: root_def)
next
  case List_todos
  then show ?thesis by (simp add: list_todos_def with_conn_events)
next
  case (Create_todo todo)
  show ?thesis
  proof (cases "strip (title_in todo) = []")
    case True
    with Create_todo show ?thesis by (simp add: create_todo_def)
  next
    case False
    with Create_todo show ?thesis by (simp add: create_todo_def with_conn_events)
  qed
next
  case (Toggle_done i)
  then show ?thesis by (simp add: toggle_done_def with_conn_events)
next
  case (Delete_todo i)
  then show ?thesis by (simp add: delete_todo_def with_conn_events)
qed

lemma never_closed: "Closed \<notin> set (conn_log w) \<Longrightarrow> Closed \<notin> set (conn_log (serve w q))"
  using serve_events [of w q] by (auto split: option.splits if_splits)

lemma never_closed_all:
  "Closed \<notin> set (conn_log w) \<Longrightarrow> Closed \<notin> set (conn_log (serve_all w qs))"
  by (induction qs arbitrary: w) (simp_all add: never_closed)

section \<open>The properties of the specification\<close>

subsection \<open>Create\<close>

text \<open>
  Claim C1, as amended. For every create request whose title is non-empty after trimming
  whitespace, served while the server can be reached, the table exists in a state the
  service keeps, the sequence has not passed its largest value and the trimmed title can
  be sent to the server (it holds no NUL and no surrogate code point): \<^verbatim>\<open>create_todo\<close>
  returns the created record and the answer has status 201. The identifier is the next
  value of the sequence, which no stored record has, the title is the trimmed title and
  \<open>done\<close> is false; the record is appended to the table.
\<close>

theorem create_todo_succeeds:
  assumes "db_down w = None" and "todos w \<noteq> None" and "wf_table w"
    and "nextval w \<le> serial_max"
    and "\<forall>c \<in> set (strip t). c \<noteq> 0 \<and> \<not> (55296 \<le> c \<and> c \<le> 57343)"
    and "strip t \<noteq> []"
  shows "fst (create_todo w (TodoIn t)) =
           Inr \<lparr>todo_id = nextval w, title = strip t, todo_done = False\<rparr>
       \<and> post_todos_status w (TodoIn t) = 201
       \<and> table (snd (create_todo w (TodoIn t))) = table w @ [(nextval w, strip t, False)]
       \<and> nextval w \<notin> set (map row_id (table w))"
proof -
  have fresh: "nextval w \<notin> set (map row_id (table w))"
    using assms(3) by (auto simp: wf_table_ids)
  have ad: "adapt (strip t) = Inr (strip t)" using assms(5) by (rule adapt_ok)
  note up = create_up [OF assms(1,2,3,4) ad assms(6)]
  show ?thesis
    using fresh by (simp add: up post_todos_status_def table_def)
qed

text \<open>The hypotheses of C1 hold on the empty table, for the title \<^verbatim>\<open>" buy"\<close>.\<close>

theorem create_todo_succeeds_witness:
  "db_down init_world = None \<and> todos init_world \<noteq> None \<and> wf_table init_world
   \<and> nextval init_world \<le> serial_max
   \<and> strip [32, 98, 117, 121] = [98, 117, 121]
   \<and> fst (create_todo init_world (TodoIn [32, 98, 117, 121])) =
       Inr \<lparr>todo_id = 1, title = [98, 117, 121], todo_done = False\<rparr>
   \<and> post_todos_status init_world (TodoIn [32, 98, 117, 121]) = 201
   \<and> table (snd (create_todo init_world (TodoIn [32, 98, 117, 121]))) =
       [(1, [98, 117, 121], False)]"
proof -
  have h1: "db_down init_world = None" by (simp add: init_world_def)
  have h2: "todos init_world \<noteq> None" by (simp add: init_world_def)
  have h3: "wf_table init_world" by (simp add: init_world_def wf_table_def table_def)
  have h4: "nextval init_world \<le> serial_max" by (simp add: init_world_def serial_max_def)
  have s: "strip [32, 98, 117, 121] = [98, 117, 121]" by (simp add: strip_def isspace_def)
  have h5: "\<forall>c \<in> set (strip [32, 98, 117, 121]). c \<noteq> 0 \<and> \<not> (55296 \<le> c \<and> c \<le> 57343)"
    by (simp add: s)
  have h6: "strip [32, 98, 117, 121] \<noteq> []" by (simp add: s)
  show ?thesis
    using create_todo_succeeds [OF h1 h2 h3 h4 h5 h6] h1 h2 h3 h4 s
    by (simp add: init_world_def table_def)
qed

text \<open>
  C1 as first stated fails in four ways, each answered with 500: the server cannot be
  reached; the title \<^verbatim>\<open>"a\0b"\<close> is non-empty after trimming, but the driver refuses
  its NUL and nothing is stored; the table does not exist; the sequence has given out its
  last 32-bit value.
\<close>

theorem create_todo_not_created:
  "post_todos_status \<lparr>db_down = Some ''connection refused'', todos = Some [], nextval = 1,
                      conn_log = []\<rparr> (TodoIn [98, 117, 121]) = 500
   \<and> post_todos_status \<lparr>db_down = None, todos = Some [], nextval = 1, conn_log = []\<rparr>
        (TodoIn [97, 0, 98]) = 500
   \<and> table (snd (create_todo \<lparr>db_down = None, todos = Some [], nextval = 1, conn_log = []\<rparr>
        (TodoIn [97, 0, 98]))) = []
   \<and> post_todos_status \<lparr>db_down = None, todos = None, nextval = 1, conn_log = []\<rparr>
        (TodoIn [98, 117, 121]) = 500
   \<and> post_todos_status \<lparr>db_down = None, todos = Some [], nextval = 2147483648,
                        conn_log = []\<rparr> (TodoIn [98, 117, 121]) = 500"
proof -
  have s1: "strip [98, 117, 121] = [98, 117, 121]" by (simp add: strip_def isspace_def)
  have s2: "strip [97, 0, 98] = [97, 0, 98]" by (simp add: strip_def isspace_def)
  have a1: "adapt [98, 117, 121] = Inr [98, 117, 121]" by (simp add: adapt_def)
  have a2: "adapt [97, 0, 98] =
      Inl (ValueError ''A string literal cannot contain NUL (0x00) characters.'')"
    by (simp add: adapt_def)
  have t: "table (snd (create_todo \<lparr>db_down = None, todos = Some [], nextval = 1,
        conn_log = []\<rparr> (TodoIn [97, 0, 98]))) = []"
    using create_effect [of "\<lparr>db_down = None, todos = Some [], nextval = 1, conn_log = []\<rparr>"
        "TodoIn [97, 0, 98]"]
    by (simp add: create_todo_def with_conn_up sql_insert_def s2 a2 table_def)
  show ?thesis
    using t
    by (simp add: post_todos_status_def create_result s1 s2 a1 a2 serial_max_def
          undefined_table_def)
qed

text \<open>
  Claim C2. For every create request whose title is empty or consists only of whitespace,
  \<^verbatim>\<open>create_todo\<close> raises the \<^verbatim>\<open>HTTPException\<close> with status 400, and the world is the one
  before the request: no record is inserted (and no connection is opened).
\<close>

theorem create_todo_blank_rejected:
  assumes "\<forall>c \<in> set t. isspace c"
  shows "create_todo w (TodoIn t) = (Inl (HTTPException 400 Titulo_obrigatorio), w)
       \<and> http_status 201 (fst (create_todo w (TodoIn t))) = 400
       \<and> table (snd (create_todo w (TodoIn t))) = table w"
proof -
  have "strip t = []" using assms by (simp add: strip_Nil_iff)
  then show ?thesis by (simp add: create_todo_def)
qed

text \<open>The titles \<^verbatim>\<open>" \t "\<close> and \<^verbatim>\<open>""\<close> are rejected.\<close>

theorem create_todo_blank_rejected_witness:
  "isspace 32 \<and> isspace 9
   \<and> create_todo init_world (TodoIn [32, 9, 32]) =
       (Inl (HTTPException 400 Titulo_obrigatorio), init_world)
   \<and> create_todo init_world (TodoIn []) =
       (Inl (HTTPException 400 Titulo_obrigatorio), init_world)"
proof -
  have h: "\<forall>c \<in> set [32, 9, 32]. isspace c" by (simp add: isspace_def)
  have e: "\<forall>c \<in> set ([]::nat list). isspace c" by simp
  show ?thesis
    using create_todo_blank_rejected [OF h, of init_world]
      create_todo_blank_rejected [OF e, of init_world] h by (simp add: isspace_def)
qed

text \<open>
  Claim C10. For every successful create with input title \<open>t\<close>, the title of the returned
  record and of the stored record is \<open>strip t\<close>: \<open>t\<close> is \<open>l @ strip t @ r\<close> with \<open>l\<close> and
  \<open>r\<close> made of whitespace only, and \<open>strip t\<close> is non-empty and neither begins nor ends
  with whitespace. What lies between its first and last character is kept as it is.
\<close>

theorem create_todo_stores_stripped_title:
  assumes "fst (create_todo w (TodoIn t)) = Inr out"
  shows "title out = strip t \<and> strip t \<noteq> []
       \<and> (todo_id out, strip t, False) \<in> set (table (snd (create_todo w (TodoIn t))))
       \<and> (\<exists>l r. t = l @ strip t @ r \<and> (\<forall>c \<in> set l. isspace c) \<and> (\<forall>c \<in> set r. isspace c))
       \<and> \<not> isspace (hd (strip t)) \<and> \<not> isspace (last (strip t))"
proof -
  have ne: "strip t \<noteq> []"
    using assms by (auto simp: create_result split: if_splits)
  have up: "db_down w = None"
    using assms ne by (cases "db_down w") (simp_all add: create_result)
  obtain p where p: "adapt (strip t) = Inr p"
    using assms ne up by (cases "adapt (strip t)") (simp_all add: create_result)
  then have pt: "p = strip t" by (rule adapt_Inr)
  obtain rs where rs: "todos w = Some rs"
    using assms ne up p by (cases "todos w") (simp_all add: create_result undefined_table_def)
  then have ex: "todos w \<noteq> None" and tab: "table w = rs" by (simp_all add: table_def)
  have le: "nextval w \<le> serial_max"
    using assms ne up p rs by (auto simp: create_result split: if_splits)
  have fresh: "nextval w \<notin> set (map row_id (table w))"
    using assms ne up p rs le unfolding tab by (auto simp: create_result split: if_splits)
  have out: "out = \<lparr>todo_id = nextval w, title = strip t, todo_done = False\<rparr>"
    using assms ne up p pt rs le fresh unfolding tab by (simp add: create_result)
  have ne': "strip (title_in (TodoIn t)) \<noteq> []" using ne by simp
  have ad: "adapt (strip (title_in (TodoIn t))) = Inr (strip (title_in (TodoIn t)))"
    using p pt by simp
  have "table (snd (create_todo w (TodoIn t))) =
          table w @ [(nextval w, strip (title_in (TodoIn t)), False)]"
    using ne' up ex ad le fresh by (rule create_table)
  then have tab': "table (snd (create_todo w (TodoIn t))) = table w @ [(nextval w, strip t, False)]"
    by simp
  from out tab' ne strip_decomp [of t] strip_ends [OF ne] show ?thesis by simp
qed

text \<open>
  The title \<^verbatim>\<open>" a  b\n"\<close> is stored as \<^verbatim>\<open>"a  b"\<close>: not the input, and with its two
  inner spaces.
\<close>

theorem create_todo_stores_stripped_title_witness:
  "fst (create_todo init_world (TodoIn [32, 97, 32, 32, 98, 10])) =
     Inr \<lparr>todo_id = 1, title = [97, 32, 32, 98], todo_done = False\<rparr>
   \<and> strip [32, 97, 32, 32, 98, 10] = [97, 32, 32, 98]
   \<and> (1, [97, 32, 32, 98], False)
        \<in> set (table (snd (create_todo init_world (TodoIn [32, 97, 32, 32, 98, 10]))))"
proof -
  have s: "strip [32, 97, 32, 32, 98, 10] = [97, 32, 32, 98]"
    by (simp add: strip_def isspace_def)
  have a: "adapt [97, 32, 32, 98] = Inr [97, 32, 32, 98]" by (simp add: adapt_def)
  have h: "fst (create_todo init_world (TodoIn [32, 97, 32, 32, 98, 10])) =
     Inr \<lparr>todo_id = 1, title = [97, 32, 32, 98], todo_done = False\<rparr>"
    by (simp add: create_result s a init_world_def serial_max_def)
  show ?thesis
    using create_todo_stores_stripped_title [OF h] h s by simp
qed

subsection \<open>List\<close>

text \<open>
  Claim C3, as amended. For every state of the table (identifiers distinct, as the primary
  key keeps them), when the server can be reached and the table exists, \<^verbatim>\<open>list_todos\<close>
  returns all the stored todos, each exactly once and none else, in strictly descending
  order of identifier, with status 200, and leaves the table as it is.
\<close>

theorem list_todos_all_descending:
  assumes "db_down w = None" and "todos w \<noteq> None" and "distinct (map row_id (table w))"
  shows "\<exists>outs. fst (list_todos w) = Inr outs
           \<and> mset outs = mset (map todo_out (table w))
           \<and> sorted_wrt (>) (map todo_id outs)
           \<and> get_todos_status w = 200
           \<and> table (snd (list_todos w)) = table w"
proof -
  let ?rs = "rev (sort_key row_id (table w))"
  note d = assms(3)
  have 1: "fst (list_todos w) = Inr (map todo_out ?rs)"
    by (simp add: list_up [OF assms(1,2)])
  have "mset ?rs = mset (table w)" by simp
  then have 2: "mset (map todo_out ?rs) = mset (map todo_out (table w))"
    by (metis mset_map)
  have "map todo_id (map todo_out ?rs) = map row_id ?rs"
    by (simp add: todo_id_out comp_def)
  then have 3: "sorted_wrt (>) (map todo_id (map todo_out ?rs))"
    using sorted_desc [OF d] by (simp only:)
  have 4: "get_todos_status w = 200" by (simp add: get_todos_status_def 1)
  from 1 2 3 4 list_table show ?thesis by blast
qed

text \<open>A table of two todos is listed with identifier 2 before identifier 1.\<close>

theorem list_todos_all_descending_witness:
  "db_down \<lparr>db_down = None, todos = Some [(1, [97], False), (2, [98], True)], nextval = 3,
            conn_log = []\<rparr> = None
   \<and> todos \<lparr>db_down = None, todos = Some [(1, [97], False), (2, [98], True)], nextval = 3,
            conn_log = []\<rparr> \<noteq> None
   \<and> distinct (map row_id [(1, [97], False), (2, [98], True)])
   \<and> fst (list_todos \<lparr>db_down = None, todos = Some [(1, [97], False), (2, [98], True)],
                      nextval = 3, conn_log = []\<rparr>) =
       Inr [\<lparr>todo_id = 2, title = [98], todo_done = True\<rparr>,
            \<lparr>todo_id = 1, title = [97], todo_done = False\<rparr>]"
proof -
  let ?W = "\<lparr>db_down = None, todos = Some [(1, [97], False), (2, [98], True)], nextval = 3,
             conn_log = []\<rparr>"
  have h1: "db_down ?W = None" by simp
  have h2: "todos ?W \<noteq> None" by simp
  have h3: "distinct (map row_id (table ?W))" by (simp add: row_id_def table_def)
  have v: "fst (list_todos ?W) =
       Inr [\<lparr>todo_id = 2, title = [98], todo_done = True\<rparr>,
            \<lparr>todo_id = 1, title = [97], todo_done = False\<rparr>]"
    by (simp add: list_up row_id_def table_def)
  from list_todos_all_descending [OF h1 h2 h3] h1 h2 h3 v show ?thesis
    by (simp add: table_def)
qed

text \<open>
  C3 as first stated fails when the server cannot be reached (the stored todo is not
  returned, the error of the driver leaves the handler) and when the table does not
  exist, as after a start-up that could not create it (the answer is 500).
\<close>

theorem list_todos_not_listed:
  "fst (list_todos \<lparr>db_down = Some ''connection refused'', todos = Some [(1, [97], False)],
                    nextval = 2, conn_log = []\<rparr>) = Inl (Psycopg2Error ''connection refused'')
   \<and> get_todos_status \<lparr>db_down = None, todos = None, nextval = 1, conn_log = []\<rparr> = 500"
  by (simp add: list_down list_up_missing get_todos_status_def undefined_table_def)

subsection \<open>Toggle\<close>

text \<open>
  Claim C4, as amended. For every identifier \<open>i\<close> present in the table, with title \<open>t\<close>
  and flag \<open>d\<close>, when the database can be reached, \<^verbatim>\<open>toggle_done\<close> returns the record
  \<open>(i, t, \<not> d)\<close> and stores it in place of \<open>(i, t, d)\<close>; toggling the same identifier a
  second time returns \<open>(i, t, d)\<close> and restores the table.
\<close>

theorem toggle_done_flips:
  assumes "db_down w = None" and "distinct (map row_id (table w))"
    and "(i, t, d) \<in> set (table w)"
  shows "fst (toggle_done w i) = Inr \<lparr>todo_id = i, title = t, todo_done = \<not> d\<rparr>
       \<and> table (snd (toggle_done w i)) = map (flip_done i) (table w)
       \<and> (i, t, \<not> d) \<in> set (table (snd (toggle_done w i)))
       \<and> fst (toggle_done (snd (toggle_done w i)) i) =
           Inr \<lparr>todo_id = i, title = t, todo_done = d\<rparr>
       \<and> table (snd (toggle_done (snd (toggle_done w i)) i)) = table w"
proof -
  let ?w1 = "snd (toggle_done w i)"
  note d = assms(2)
  note first = toggle_up_present [OF assms(1) d assms(3)]
  have t1: "table ?w1 = map (flip_done i) (table w)" by (simp add: first table_def)
  have "flip_done i (i, t, d) \<in> set (map (flip_done i) (table w))"
    using assms(3) by (simp only: set_map image_eqI)
  then have m1: "(i, t, \<not> d) \<in> set (table ?w1)" by (simp add: t1)
  have up1: "db_down ?w1 = None" by (simp add: first assms(1))
  have d1: "distinct (map row_id (table ?w1))" using d by (simp only: toggle_ids)
  note second = toggle_up_present [OF up1 d1 m1]
  have ff: "map (flip_done i) (map (flip_done i) (table w)) = table w"
    by (simp add: flip_flip comp_def)
  have "table (snd (toggle_done ?w1 i)) = map (flip_done i) (table ?w1)"
    by (simp add: second table_def)
  then have t2: "table (snd (toggle_done ?w1 i)) = table w"
    by (simp only: t1 ff)
  have r2: "fst (toggle_done ?w1 i) = Inr \<lparr>todo_id = i, title = t, todo_done = d\<rparr>"
    by (simp add: second)
  have r1: "fst (toggle_done w i) = Inr \<lparr>todo_id = i, title = t, todo_done = \<not> d\<rparr>"
    by (simp add: first)
  from r1 t1 m1 r2 t2 show ?thesis by blast
qed

text \<open>Toggling the todo 2, which is done, in a table of two todos.\<close>

theorem toggle_done_flips_witness:
  "db_down \<lparr>db_down = None, todos = Some [(1, [97], False), (2, [98], True)], nextval = 3,
            conn_log = []\<rparr> = None
   \<and> distinct (map row_id [(1, [97], False), (2, [98], True)])
   \<and> (2, [98], True) \<in> set [(1, [97], False), (2, [98], True)]
   \<and> fst (toggle_done \<lparr>db_down = None, todos = Some [(1, [97], False), (2, [98], True)],
                       nextval = 3, conn_log = []\<rparr> 2) =
       Inr \<lparr>todo_id = 2, title = [98], todo_done = False\<rparr>
   \<and> table (snd (toggle_done \<lparr>db_down = None,
                todos = Some [(1, [97], False), (2, [98], True)],
                nextval = 3, conn_log = []\<rparr> 2)) =
       [(1, [97], False), (2, [98], False)]"
proof -
  let ?W = "\<lparr>db_down = None, todos = Some [(1, [97], False), (2, [98], True)], nextval = 3,
             conn_log = []\<rparr>"
  have tw: "table ?W = [(1, [97], False), (2, [98], True)]" by (simp add: table_def)
  have h1: "db_down ?W = None" by simp
  have h2: "distinct (map row_id (table ?W))" by (simp add: row_id_def tw)
  have h3: "(2, [98], True) \<in> set (table ?W)" by (simp add: tw)
  from toggle_done_flips [OF h1 h2 h3] h1 show ?thesis by (simp add: tw row_id_def)
qed

text \<open>
  C4 as first stated fails when the server cannot be reached: the flag of the stored
  todo 1 is not negated and no record is returned.
\<close>

theorem toggle_done_unreachable_database:
  "toggle_done \<lparr>db_down = Some ''connection refused'', todos = Some [(1, [97], False)],
                nextval = 2, conn_log = []\<rparr> 1 =
     (Inl (Psycopg2Error ''connection refused''),
      \<lparr>db_down = Some ''connection refused'', todos = Some [(1, [97], False)],
       nextval = 2, conn_log = [Connect_failed]\<rparr>)"
  by (simp add: toggle_down)

text \<open>
  Claim C8. For every world and every \<^verbatim>\<open>toggle_done\<close> on an identifier \<open>i\<close>, whatever the
  outcome: the table keeps its length and the sequence its value, every record keeps its
  identifier and its title, and every record whose identifier is not \<open>i\<close> is unchanged.
  So only the \<open>done\<close> flag of the record \<open>i\<close> can change.
\<close>

theorem toggle_done_frame:
  "length (table (snd (toggle_done w i))) = length (table w)
   \<and> nextval (snd (toggle_done w i)) = nextval w
   \<and> (\<forall>k < length (table w).
        fst (table (snd (toggle_done w i)) ! k) = fst (table w ! k)
      \<and> fst (snd (table (snd (toggle_done w i)) ! k)) = fst (snd (table w ! k))
      \<and> (row_id (table w ! k) \<noteq> i \<longrightarrow> table (snd (toggle_done w i)) ! k = table w ! k))"
proof -
  have f: "\<And>r. fst (flip_done i r) = fst r \<and> fst (snd (flip_done i r)) = fst (snd r)
             \<and> (row_id r \<noteq> i \<longrightarrow> flip_done i r = r)"
  proof -
    fix r :: row
    obtain j u e where "r = (j, u, e)" by (cases r)
    then show "fst (flip_done i r) = fst r \<and> fst (snd (flip_done i r)) = fst (snd r)
             \<and> (row_id r \<noteq> i \<longrightarrow> flip_done i r = r)"
      by (simp add: row_id_def)
  qed
  show ?thesis
    by (simp add: toggle_table toggle_nextval f)
qed

text \<open>Toggling 2 in a table of two todos: the todo 1 is unchanged, the todo 2 keeps its title.\<close>

theorem toggle_done_frame_witness:
  "table (snd (toggle_done \<lparr>db_down = None, todos = Some [(1, [97], False), (2, [98], True)],
                            nextval = 3, conn_log = []\<rparr> 2)) ! 0 = (1, [97], False)
   \<and> fst (table (snd (toggle_done \<lparr>db_down = None,
                 todos = Some [(1, [97], False), (2, [98], True)],
                 nextval = 3, conn_log = []\<rparr> 2)) ! 1) = 2
   \<and> fst (snd (table (snd (toggle_done \<lparr>db_down = None,
                 todos = Some [(1, [97], False), (2, [98], True)],
                 nextval = 3, conn_log = []\<rparr> 2)) ! 1)) = [98]"
proof -
  let ?W = "\<lparr>db_down = None, todos = Some [(1, [97], False), (2, [98], True)], nextval = 3,
             conn_log = []\<rparr>"
  have tw: "table ?W = [(1, [97], False), (2, [98], True)]" by (simp add: table_def)
  have f: "\<forall>k < length (table ?W).
        fst (table (snd (toggle_done ?W 2)) ! k) = fst (table ?W ! k)
      \<and> fst (snd (table (snd (toggle_done ?W 2)) ! k)) = fst (snd (table ?W ! k))
      \<and> (row_id (table ?W ! k) \<noteq> 2 \<longrightarrow> table (snd (toggle_done ?W 2)) ! k = table ?W ! k)"
    using toggle_done_frame [of ?W 2] by blast
  have k0: "(0::nat) < length (table ?W)" and k1: "(1::nat) < length (table ?W)"
    by (simp_all add: tw)
  have n: "row_id (table ?W ! 0) \<noteq> 2" by (simp add: row_id_def tw)
  from f k0 n have "table (snd (toggle_done ?W 2)) ! 0 = table ?W ! 0" by blast
  moreover from f k1 have "fst (table (snd (toggle_done ?W 2)) ! 1) = fst (table ?W ! 1)
      \<and> fst (snd (table (snd (toggle_done ?W 2)) ! 1)) = fst (snd (table ?W ! 1))" by blast
  ultimately show ?thesis by (simp add: tw)
qed

subsection \<open>Identifiers that are not stored\<close>

text \<open>
  Claim C5, as amended. For every identifier absent from the table, when the server can
  be reached and the table exists, both \<^verbatim>\<open>toggle_done\<close> and \<^verbatim>\<open>delete_todo\<close> raise the
  \<^verbatim>\<open>HTTPException\<close> of status 404, the answers have status 404, and the table is
  unchanged.
\<close>

theorem absent_id_not_found:
  assumes "db_down w = None" and "todos w \<noteq> None" and "i \<notin> set (map row_id (table w))"
  shows "fst (toggle_done w i) = Inl (HTTPException 404 Nao_encontrado)
       \<and> patch_todo_status w i = 404
       \<and> table (snd (toggle_done w i)) = table w
       \<and> fst (delete_todo w i) = Inl (HTTPException 404 Nao_encontrado)
       \<and> delete_todo_status w i = 404
       \<and> table (snd (delete_todo w i)) = table w"
  by (simp add: toggle_up_absent [OF assms] delete_up_absent [OF assms]
        patch_todo_status_def delete_todo_status_def table_def)

text \<open>The identifier 7 in a table that holds the todo 1 only.\<close>

theorem absent_id_not_found_witness:
  "db_down \<lparr>db_down = None, todos = Some [(1, [97], False)], nextval = 2, conn_log = []\<rparr> = None
   \<and> todos \<lparr>db_down = None, todos = Some [(1, [97], False)], nextval = 2, conn_log = []\<rparr>
       \<noteq> None
   \<and> 7 \<notin> set (map row_id [(1, [97], False)])
   \<and> patch_todo_status \<lparr>db_down = None, todos = Some [(1, [97], False)],
                         nextval = 2, conn_log = []\<rparr> 7 = 404
   \<and> delete_todo_status \<lparr>db_down = None, todos = Some [(1, [97], False)],
                          nextval = 2, conn_log = []\<rparr> 7 = 404
   \<and> table (snd (delete_todo \<lparr>db_down = None, todos = Some [(1, [97], False)],
                             nextval = 2, conn_log = []\<rparr> 7)) = [(1, [97], False)]"
proof -
  let ?W = "\<lparr>db_down = None, todos = Some [(1, [97], False)], nextval = 2, conn_log = []\<rparr>"
  have tw: "table ?W = [(1, [97], False)]" by (simp add: table_def)
  have h1: "db_down ?W = None" by simp
  have h2: "todos ?W \<noteq> None" by simp
  have h3: "7 \<notin> set (map row_id (table ?W))" by (simp add: row_id_def tw)
  from absent_id_not_found [OF h1 h2 h3] h1 h2 show ?thesis by (simp add: tw row_id_def)
qed

text \<open>
  C5 as first stated fails when the server cannot be reached, and when the table does not
  exist: the identifier 7, which is not stored, is answered with 500 by both handlers,
  not with 404.
\<close>

theorem absent_id_server_error:
  "patch_todo_status \<lparr>db_down = Some ''connection refused'',
       todos = Some [(1, [97], False)], nextval = 2, conn_log = []\<rparr> 7 = 500
   \<and> delete_todo_status \<lparr>db_down = Some ''connection refused'',
       todos = Some [(1, [97], False)], nextval = 2, conn_log = []\<rparr> 7 = 500
   \<and> patch_todo_status \<lparr>db_down = None, todos = None, nextval = 1, conn_log = []\<rparr> 7 = 500
   \<and> delete_todo_status \<lparr>db_down = None, todos = None, nextval = 1, conn_log = []\<rparr> 7 = 500"
  by (simp add: toggle_down delete_down toggle_up_missing delete_up_missing
        patch_todo_status_def delete_todo_status_def undefined_table_def)

subsection \<open>Delete\<close>

text \<open>
  Claim C6, as amended. For every identifier \<open>i\<close> present in the table (a table as the
  service keeps it), when the database can be reached, \<^verbatim>\<open>delete_todo\<close> returns
  \<^verbatim>\<open>None\<close> under status 204, removes exactly the record of \<open>i\<close> and leaves every other
  record as it is, in the same order; after any further requests \<open>qs\<close>, a toggle or a
  delete of \<open>i\<close> raises the \<^verbatim>\<open>HTTPException\<close> with status 404.
\<close>

theorem delete_todo_removes:
  assumes "db_down w = None" and "wf_table w" and "(i, t, d) \<in> set (table w)"
  shows "fst (delete_todo w i) = Inr ()
       \<and> http_status 204 (fst (delete_todo w i)) = 204
       \<and> table (snd (delete_todo w i)) = filter (\<lambda>r. r \<noteq> (i, t, d)) (table w)
       \<and> fst (toggle_done (serve_all (snd (delete_todo w i)) qs) i) =
           Inl (HTTPException 404 Nao_encontrado)
       \<and> fst (delete_todo (serve_all (snd (delete_todo w i)) qs) i) =
           Inl (HTTPException 404 Nao_encontrado)"
proof -
  let ?w1 = "snd (delete_todo w i)"
  let ?w2 = "serve_all ?w1 qs"
  have d: "distinct (map row_id (table w))" using assms(2) by (simp add: wf_table_ids)
  have m: "i \<in> set (map row_id (table w))" using assms(3) by (rule row_id_mem)
  note del = delete_up_present [OF assms(1) m]
  have t0: "table ?w1 = filter (\<lambda>r. row_id r \<noteq> i) (table w)"
    by (simp add: del table_def)
  have t1: "table ?w1 = filter (\<lambda>r. r \<noteq> (i, t, d)) (table w)"
    by (simp only: t0 filter_removes_row [OF d assms(3)])
  have n1: "nextval ?w1 = nextval w" by (simp add: del)
  have "i < nextval w" using assms(2) m unfolding wf_table_ids by blast
  moreover have "i \<notin> set (map row_id (filter (\<lambda>r. row_id r \<noteq> i) (table w)))"
    by auto
  ultimately have "retired i ?w1" by (simp add: retired_def t0 n1)
  then have "retired i ?w2" by (rule retired_serve_all)
  then have a2: "i \<notin> set (map row_id (table ?w2))" by (simp add: retired_def)
  have "db_down ?w1 = None" by (simp add: del assms(1))
  then have up2: "db_down ?w2 = None" by (simp add: db_down_serve_all)
  have "todos ?w1 \<noteq> None" by (simp add: del)
  then have ex2: "todos ?w2 \<noteq> None" by (simp add: exists_serve_all)
  have r: "fst (delete_todo w i) = Inr ()" by (simp add: del)
  from r t1 toggle_up_absent [OF up2 ex2 a2] delete_up_absent [OF up2 ex2 a2]
  show ?thesis by simp
qed

text \<open>Deleting the todo 1, then creating another todo and listing, then toggling 1.\<close>

theorem delete_todo_removes_witness:
  "db_down \<lparr>db_down = None, todos = Some [(1, [97], False), (2, [98], True)], nextval = 3,
            conn_log = []\<rparr> = None
   \<and> wf_table \<lparr>db_down = None, todos = Some [(1, [97], False), (2, [98], True)], nextval = 3,
                conn_log = []\<rparr>
   \<and> (1, [97], False) \<in> set [(1, [97], False), (2, [98], True)]
   \<and> fst (delete_todo \<lparr>db_down = None, todos = Some [(1, [97], False), (2, [98], True)],
                       nextval = 3, conn_log = []\<rparr> 1) = Inr ()
   \<and> table (snd (delete_todo \<lparr>db_down = None,
                todos = Some [(1, [97], False), (2, [98], True)],
                nextval = 3, conn_log = []\<rparr> 1)) = [(2, [98], True)]
   \<and> fst (toggle_done (serve_all (snd (delete_todo \<lparr>db_down = None,
              todos = Some [(1, [97], False), (2, [98], True)], nextval = 3,
              conn_log = []\<rparr> 1))
            [Create_todo (TodoIn [99]), List_todos]) 1) =
       Inl (HTTPException 404 Nao_encontrado)"
proof -
  let ?W = "\<lparr>db_down = None, todos = Some [(1, [97], False), (2, [98], True)], nextval = 3,
             conn_log = []\<rparr>"
  have tw: "table ?W = [(1, [97], False), (2, [98], True)]" by (simp add: table_def)
  have h1: "db_down ?W = None" by simp
  have h2: "wf_table ?W" by (simp add: wf_table_def row_id_def tw)
  have h3: "(1, [97], False) \<in> set (table ?W)" by (simp add: tw)
  have t: "table (snd (delete_todo ?W 1)) = [(2, [98], True)]"
    by (simp add: delete_table row_id_def tw)
  from delete_todo_removes [OF h1 h2 h3, of "[Create_todo (TodoIn [99]), List_todos]"] h1 h2 t
  show ?thesis by simp
qed

text \<open>
  C6 as first stated fails when the server cannot be reached: the stored todo 1 is not
  removed and the handler does not return.
\<close>

theorem delete_todo_unreachable_database:
  "delete_todo \<lparr>db_down = Some ''connection refused'', todos = Some [(1, [97], False)],
                nextval = 2, conn_log = []\<rparr> 1 =
     (Inl (Psycopg2Error ''connection refused''),
      \<lparr>db_down = Some ''connection refused'', todos = Some [(1, [97], False)],
       nextval = 2, conn_log = [Connect_failed]\<rparr>)"
  by (simp add: delete_down)

subsection \<open>Health check\<close>

text \<open>
  Claim C7. \<^verbatim>\<open>health\<close> never raises: it always returns a record whose \<open>service\<close> field is
  \<^verbatim>\<open>"ok"\<close>; the \<open>database\<close> field is \<^verbatim>\<open>"ok"\<close> when the connectivity check succeeds and
  \<^verbatim>\<open>"error: "\<close> followed by the message of the driver's error when it fails.
\<close>

theorem health_reports_independently:
  "\<exists>h. fst (health w) = Inr h \<and> service h = ''ok''
      \<and> (db_down w = None \<longrightarrow> database h = ''ok'')
      \<and> (\<forall>msg. db_down w = Some msg \<longrightarrow> database h = ''error: '' @ msg)"
  by (cases "db_down w") (simp_all add: health_def with_conn_up with_conn_down)

text \<open>Both cases, on a reachable and on an unreachable server.\<close>

theorem health_reports_independently_witness:
  "fst (health \<lparr>db_down = None, todos = Some [], nextval = 1, conn_log = []\<rparr>) =
     Inr \<lparr>service = ''ok'', database = ''ok''\<rparr>
   \<and> fst (health \<lparr>db_down = Some ''connection refused'', todos = None, nextval = 1,
                  conn_log = []\<rparr>) =
     Inr \<lparr>service = ''ok'', database = ''error: connection refused''\<rparr>"
proof -
  let ?U = "\<lparr>db_down = None, todos = Some [], nextval = 1, conn_log = []\<rparr>"
  let ?D = "\<lparr>db_down = Some ''connection refused'', todos = None, nextval = 1,
             conn_log = []\<rparr>"
  obtain h where h: "fst (health ?U) = Inr h" "service h = ''ok''" "database h = ''ok''"
    using health_reports_independently [of ?U] by auto
  obtain k where k: "fst (health ?D) = Inr k" "service k = ''ok''"
      "database k = ''error: connection refused''"
    using health_reports_independently [of ?D] by auto
  from h k show ?thesis by simp
qed

subsection \<open>Connections\<close>




end
